theory Spec2Isabelle
  imports Complex_Main
begin

section \<open>JavaScript values\<close>

text \<open>
  The tool arguments arrive as untyped JSON (\<open>fc.args as any\<close>) and the drawings are plain
  objects, so both are modelled as JavaScript values. An object is the list of its own
  properties; a property is read with \<open>get_prop\<close> and written with \<open>set_prop\<close>, which
  overwrites an existing key in place and appends a new one. Numbers are reals: the
  rounding of IEEE doubles, \<open>NaN\<close> and the infinities are outside the model.
\<close>

datatype jsval =
    JUndefined
  | JNull
  | JBool bool
  | JNum real
  | JStr string
  | JArr "jsval list"
  | JObj "(string \<times> jsval) list"

type_synonym jsobj = "(string \<times> jsval) list"

definition get_prop :: "string \<Rightarrow> jsobj \<Rightarrow> jsval option" where
  "get_prop k obj = map_of obj k"

fun set_prop :: "string \<Rightarrow> jsval \<Rightarrow> jsobj \<Rightarrow> jsobj" where
  "set_prop k v [] = [(k, v)]"
| "set_prop k v ((k', v') # ps) =
     (if k = k' then (k, v) # ps else (k', v') # set_prop k v ps)"

definition digit_char :: "nat \<Rightarrow> char" where
  "digit_char n = ''0123456789'' ! (n mod 10)"

text \<open>The decimal text a template literal gives for a non-negative integer.\<close>

function show_nat :: "nat \<Rightarrow> string" where
  "show_nat n = (if n < 10 then [digit_char n] else show_nat (n div 10) @ [digit_char (n mod 10)])"
  by pat_completeness auto
termination
  by (relation "measure id") auto

declare show_nat.simps [simp del]

text \<open>
  The own enumerable properties that an object spread \<open>{...m}\<close> copies: those of an
  object, the indexed elements of an array or of a string, and nothing for the other values.
\<close>

fun own_props :: "jsval \<Rightarrow> jsobj" where
  "own_props (JObj ps) = ps"
| "own_props (JArr vs) = zip (map show_nat [0..<length vs]) vs"
| "own_props (JStr cs) = zip (map show_nat [0..<length cs]) (map (\<lambda>c. JStr [c]) cs)"
| "own_props _ = []"

definition spread :: "jsobj \<Rightarrow> jsobj \<Rightarrow> jsobj" where
  "spread base ps = foldl (\<lambda>obj (k, v). set_prop k v obj) base ps"

text \<open>Reading \<open>xs[i]\<close>: outside the array the result is \<open>undefined\<close>, here \<open>None\<close>.\<close>

definition js_index :: "'a list \<Rightarrow> int \<Rightarrow> 'a option" where
  "js_index xs i = (if 0 \<le> i \<and> i < int (length xs) then Some (xs ! nat i) else None)"

text \<open>\<open>xs.slice(0, end)\<close>: a negative \<open>end\<close> counts from the end of the array.\<close>

definition slice0 :: "'a list \<Rightarrow> int \<Rightarrow> 'a list" where
  "slice0 xs e = take (nat (if e < 0 then int (length xs) + e else e)) xs"

datatype JsError = TypeError | DecodeError | InvalidStateError

section \<open>The state of the App component\<close>

type_synonym Drawing = jsobj

text \<open>
  What the component does to the world outside it, in the order it does it. Streams,
  audio nodes, audio contexts and the session promise are named by natural numbers.
\<close>

datatype Effect =
    ClearInterval nat
  | TrackStop nat
  | SourceStop nat
  | SourceStart nat real
  | ContextClose nat
  | SessionClose nat
  | SendToolResponse string string string

text \<open>
  One field for each \<open>useState\<close> and \<open>useRef\<close> of \<open>App\<close> that the modelled functions
  touch. \<open>drawingsRef\<close> and \<open>drawings\<close> are \<open>None\<close> when they hold \<open>undefined\<close>, which an
  out-of-range read of the history would store. A stream is the list of its tracks.
  Two fields belong to the browser and not to the component: \<open>pendingClears\<close> lists the due
  times (ms) of the timeouts set at a turn-complete and not yet run, and \<open>sourceCount\<close>
  counts the buffer sources created so far, so that each new node gets its own name.
\<close>

record App =
  isActive :: bool
  isConnecting :: bool
  error :: "string option"
  transcription :: "string \<times> string"
  voiceData :: "nat list"
  drawings :: "Drawing list option"
  history :: "Drawing list list"
  historyIndex :: int
  drawingsRef :: "Drawing list option"
  historyRef :: "Drawing list list"
  historyIndexRef :: int
  sessionPromiseRef :: "nat option"
  screenStream :: "nat list option"
  micStreamRef :: "nat list option"
  frameIntervalRef :: "nat option"
  inputAudioCtxRef :: "nat option"
  outputAudioCtxRef :: "nat option"
  outputAnalyserRef :: "nat option"
  nextStartTimeRef :: real
  sourcesRef :: "nat list"
  transcriptionRef :: "string \<times> string"
  pendingClears :: "nat list"
  sourceCount :: nat

definition initialApp :: App where
  "initialApp = \<lparr>
     isActive = False, isConnecting = False, error = None,
     transcription = ('''', ''''), voiceData = [],
     drawings = Some [], history = [], historyIndex = - 1,
     drawingsRef = Some [], historyRef = [], historyIndexRef = - 1,
     sessionPromiseRef = None, screenStream = None, micStreamRef = None,
     frameIntervalRef = None, inputAudioCtxRef = None, outputAudioCtxRef = None,
     outputAnalyserRef = None, nextStartTimeRef = 0, sourcesRef = [],
     transcriptionRef = ('''', ''''), pendingClears = [], sourceCount = 0 \<rparr>"

section \<open>Annotation history\<close>

definition updateDrawings :: "Drawing list \<Rightarrow> App \<Rightarrow> App" where
  "updateDrawings newDrawings s =
     (let pushed = slice0 (historyRef s) (historyIndexRef s + 1) @ [newDrawings];
          newHistory = (if length pushed > 50 then tl pushed else pushed)
      in s\<lparr> drawingsRef := Some newDrawings, drawings := Some newDrawings,
             historyRef := newHistory, history := newHistory,
             historyIndexRef := int (length newHistory) - 1,
             historyIndex := int (length newHistory) - 1 \<rparr>)"

definition undo :: "App \<Rightarrow> App" where
  "undo s =
     (if historyIndexRef s > 0 then
        (let i = historyIndexRef s - 1; prev = js_index (historyRef s) i
         in s\<lparr> historyIndexRef := i, drawingsRef := prev,
                historyIndex := i, drawings := prev \<rparr>)
      else if historyIndexRef s = 0 then
        s\<lparr> historyIndexRef := - 1, drawingsRef := Some [],
           historyIndex := - 1, drawings := Some [] \<rparr>
      else s)"

definition redo :: "App \<Rightarrow> App" where
  "redo s =
     (if historyIndexRef s < int (length (historyRef s)) - 1 then
        (let i = historyIndexRef s + 1; next = js_index (historyRef s) i
         in s\<lparr> historyIndexRef := i, drawingsRef := next,
                historyIndex := i, drawings := next \<rparr>)
      else s)"

text \<open>A run of \<open>updateDrawings\<close> calls, one for each list of the argument, in order.\<close>

fun applyAll :: "Drawing list list \<Rightarrow> App \<Rightarrow> App" where
  "applyAll [] s = s"
| "applyAll (d # ds) s = applyAll ds (updateDrawings d s)"

section \<open>Teardown\<close>

text \<open>
  \<open>source.stop()\<close> is called on a node; \<open>throws\<close> tells for which nodes the call raises.
  The log records the call in both cases.
\<close>

definition source_stop :: "(nat \<Rightarrow> bool) \<Rightarrow> nat \<Rightarrow> Effect list \<times> JsError option" where
  "source_stop throws x = ([SourceStop x], if throws x then Some InvalidStateError else None)"

text \<open>\<open>sourcesRef.current.forEach(s => { try { s.stop(); } catch (e) {} })\<close>: the error is dropped.\<close>

fun stop_each :: "(nat \<Rightarrow> bool) \<Rightarrow> nat list \<Rightarrow> Effect list" where
  "stop_each throws [] = []"
| "stop_each throws (x # xs) = (case source_stop throws x of (es, _) \<Rightarrow> es @ stop_each throws xs)"

text \<open>
  \<open>cleanup\<close> returns the new state and the release calls it made. A timer handle is truthy
  when it is not 0. Closing the session is asked of the session promise.
\<close>

definition cleanup :: "(nat \<Rightarrow> bool) \<Rightarrow> App \<Rightarrow> App \<times> Effect list" where
  "cleanup throws s =
     (s\<lparr> isActive := False, isConnecting := False,
         drawings := Some [], history := [], historyIndex := - 1,
         drawingsRef := Some [], historyRef := [], historyIndexRef := - 1,
         screenStream := None, voiceData := [],
         sourcesRef := [],
         inputAudioCtxRef := None, outputAudioCtxRef := None, outputAnalyserRef := None,
         nextStartTimeRef := 0,
         sessionPromiseRef := None \<rparr>,
      (case frameIntervalRef s of
         Some h \<Rightarrow> if h \<noteq> 0 then [ClearInterval h] else []
       | None \<Rightarrow> [])
      @ (case micStreamRef s of Some tracks \<Rightarrow> map TrackStop tracks | None \<Rightarrow> [])
      @ stop_each throws (sourcesRef s)
      @ (case inputAudioCtxRef s of Some c \<Rightarrow> [ContextClose c] | None \<Rightarrow> [])
      @ (case outputAudioCtxRef s of Some c \<Rightarrow> [ContextClose c] | None \<Rightarrow> [])
      @ (case sessionPromiseRef s of Some p \<Rightarrow> [SessionClose p] | None \<Rightarrow> []))"

text \<open>\<open>cleanup\<close> called \<open>n\<close> times in succession, with the release calls of each call.\<close>

fun cleanups :: "nat \<Rightarrow> (nat \<Rightarrow> bool) \<Rightarrow> App \<Rightarrow> App \<times> Effect list list" where
  "cleanups 0 throws s = (s, [])"
| "cleanups (Suc n) throws s =
     (case cleanup throws s of (s', es) \<Rightarrow>
        (case cleanups n throws s' of (s'', ess) \<Rightarrow> (s'', es # ess)))"

section \<open>The message handler\<close>

record FunctionCall =
  callId :: string
  name :: string
  args :: jsval

text \<open>
  The parts of a \<open>LiveServerMessage\<close> that \<open>onmessage\<close> reads: the audio payload of the
  first part of the model turn, the function calls of the tool call, the text of each
  transcription (\<open>Some None\<close> is a transcription object without text), and the two flags.
\<close>

record LiveServerMessage =
  audioData :: "string option"
  toolCall :: "FunctionCall list option"
  inputTranscription :: "string option option"
  outputTranscription :: "string option option"
  turnComplete :: bool
  interrupted :: bool

text \<open>
  What one run of the handler reads from outside the component: the playback clock
  \<open>outputAudioCtxRef.current.currentTime\<close> read at the start of the audio branch;
  \<open>Date.now()\<close> as read for mark \<open>i\<close> of function call \<open>k\<close>; the wall clock (ms) at which
  \<open>setTimeout\<close> is called; the nodes whose \<open>stop()\<close> raises; and \<open>decodeAudioData\<close>, whose
  code is not part of the sources at hand: it gives the duration of the decoded buffer,
  or \<open>None\<close> when decoding fails. One message is handled at a time: the interleaving of
  two handlers at the \<open>await\<close> of the decoder is outside the model.
\<close>

record Env =
  currentTime :: real
  dateNow :: "nat \<Rightarrow> nat \<Rightarrow> nat"
  wallClock :: nat
  stopThrows :: "nat \<Rightarrow> bool"
  decodeAudioData :: "string \<Rightarrow> real option"

text \<open>The state reached, the effects so far, and the error that ended the handler, if any.\<close>

type_synonym Outcome = "App \<times> Effect list \<times> JsError option"

definition andThen :: "Outcome \<Rightarrow> (App \<Rightarrow> Outcome) \<Rightarrow> Outcome" where
  "andThen r f =
     (case r of
        (s, es, Some e) \<Rightarrow> (s, es, Some e)
      | (s, es, None) \<Rightarrow> (case f s of (s', es', e') \<Rightarrow> (s', es @ es', e')))"

text \<open>\<open>Set.add\<close> on the set of sources, kept in insertion order.\<close>

definition set_add :: "nat \<Rightarrow> nat list \<Rightarrow> nat list" where
  "set_add x xs = (if x \<in> set xs then xs else xs @ [x])"

definition audio_output :: "Env \<Rightarrow> LiveServerMessage \<Rightarrow> App \<Rightarrow> Outcome" where
  "audio_output env msg s =
     (case audioData msg of
        None \<Rightarrow> (s, [], None)
      | Some a \<Rightarrow>
          if a \<noteq> [] \<and> outputAudioCtxRef s \<noteq> None \<and> outputAnalyserRef s \<noteq> None then
            (let s1 = s\<lparr> nextStartTimeRef := max (nextStartTimeRef s) (currentTime env) \<rparr>
             in case decodeAudioData env a of
                  None \<Rightarrow> (s1, [], Some DecodeError)
                | Some duration \<Rightarrow>
                    (let source = sourceCount s1
                     in (s1\<lparr> sourceCount := Suc source,
                             nextStartTimeRef := nextStartTimeRef s1 + duration,
                             sourcesRef := set_add source (sourcesRef s1) \<rparr>,
                         [SourceStart source (nextStartTimeRef s1)], None)))
          else (s, [], None))"

text \<open>\<open>source.onended\<close>: the node leaves the set.\<close>

definition source_ended :: "nat \<Rightarrow> App \<Rightarrow> App" where
  "source_ended x s = s\<lparr> sourcesRef := removeAll x (sourcesRef s) \<rparr>"

definition newMark :: "nat \<Rightarrow> nat \<Rightarrow> jsval \<Rightarrow> Drawing" where
  "newMark now i m =
     spread [(''id'', JStr (''ai-'' @ show_nat now @ ''-'' @ show_nat i))] (own_props m)"

definition newMarks :: "(nat \<Rightarrow> nat) \<Rightarrow> jsval list \<Rightarrow> Drawing list" where
  "newMarks now ms = map (\<lambda>(i, m). newMark (now i) i m) (enumerate 0 ms)"

text \<open>\<open>(fc.args as any).marks\<close> as an array; anything else makes \<open>.map\<close> raise.\<close>

fun marksOf :: "jsval \<Rightarrow> jsval list option" where
  "marksOf (JObj ps) = (case get_prop ''marks'' ps of Some (JArr ms) \<Rightarrow> Some ms | _ \<Rightarrow> None)"
| "marksOf _ = None"

definition handleCall :: "(nat \<Rightarrow> nat) \<Rightarrow> FunctionCall \<Rightarrow> App \<Rightarrow> Outcome" where
  "handleCall now fc s =
     (if name fc = ''mark_screen'' then
        (case marksOf (args fc) of
           None \<Rightarrow> (s, [], Some TypeError)
         | Some ms \<Rightarrow>
             (case drawingsRef s of
                None \<Rightarrow> (s, [], Some TypeError)
              | Some ds \<Rightarrow>
                  (updateDrawings (ds @ newMarks now ms) s,
                   [SendToolResponse (callId fc) (name fc) ''HUD marks deployed, Sir.''],
                   None)))
      else if name fc = ''clear_marks'' then
        (updateDrawings [] s, [SendToolResponse (callId fc) (name fc) ''HUD clear.''], None)
      else (s, [], None))"

fun toolLoop :: "(nat \<Rightarrow> nat \<Rightarrow> nat) \<Rightarrow> nat \<Rightarrow> FunctionCall list \<Rightarrow> App \<Rightarrow> Outcome" where
  "toolLoop now k [] s = (s, [], None)"
| "toolLoop now k (fc # fcs) s = andThen (handleCall (now k) fc s) (toolLoop now (Suc k) fcs)"

definition tool_handling :: "Env \<Rightarrow> LiveServerMessage \<Rightarrow> App \<Rightarrow> Outcome" where
  "tool_handling env msg s =
     (case toolCall msg of
        None \<Rightarrow> (s, [], None)
      | Some fcs \<Rightarrow> toolLoop (dateNow env) 0 fcs s)"

text \<open>\<open>buffer += text\<close>, where a missing text reads as the word undefined.\<close>

definition append_text :: "string \<Rightarrow> string option \<Rightarrow> string" where
  "append_text buffer t = buffer @ (case t of None \<Rightarrow> ''undefined'' | Some txt \<Rightarrow> txt)"

definition transcription_step :: "Env \<Rightarrow> LiveServerMessage \<Rightarrow> App \<Rightarrow> App" where
  "transcription_step env msg s =
     (let s1 = (case inputTranscription msg of
                  None \<Rightarrow> s
                | Some t \<Rightarrow>
                    (let r = (append_text (fst (transcriptionRef s)) t, snd (transcriptionRef s))
                     in s\<lparr> transcriptionRef := r, transcription := r \<rparr>));
          s2 = (case outputTranscription msg of
                  None \<Rightarrow> s1
                | Some t \<Rightarrow>
                    (let r = (fst (transcriptionRef s1), append_text (snd (transcriptionRef s1)) t)
                     in s1\<lparr> transcriptionRef := r, transcription := r \<rparr>))
      in if turnComplete msg
         then s2\<lparr> pendingClears := pendingClears s2 @ [wallClock env + 6000] \<rparr>
         else s2)"

text \<open>
  The browser at wall-clock time \<open>now\<close>: every timeout whose delay has elapsed runs its
  callback, which replaces both transcripts by the empty text, and leaves the queue.
\<close>

definition runTimeouts :: "nat \<Rightarrow> App \<Rightarrow> App" where
  "runTimeouts now s =
     (if \<exists>d \<in> set (pendingClears s). d \<le> now
      then s\<lparr> transcriptionRef := ('''', ''''), transcription := ('''', ''''),
              pendingClears := filter (\<lambda>d. \<not> d \<le> now) (pendingClears s) \<rparr>
      else s)"

definition interruption :: "Env \<Rightarrow> LiveServerMessage \<Rightarrow> App \<Rightarrow> Outcome" where
  "interruption env msg s =
     (if interrupted msg
      then (s\<lparr> sourcesRef := [], nextStartTimeRef := 0 \<rparr>,
            stop_each (stopThrows env) (sourcesRef s), None)
      else (s, [], None))"

definition onmessage :: "Env \<Rightarrow> LiveServerMessage \<Rightarrow> App \<Rightarrow> Outcome" where
  "onmessage env msg s =
     andThen (audio_output env msg s) (\<lambda>s1.
     andThen (tool_handling env msg s1) (\<lambda>s2.
     interruption env msg (transcription_step env msg s2)))"

text \<open>
  A run of audio chunks: each message goes through the audio branch on its own, with the
  clock reading of its own handler run; an error ends that run only.
\<close>

fun playAll :: "(Env \<times> LiveServerMessage) list \<Rightarrow> App \<Rightarrow> App \<times> Effect list" where
  "playAll [] s = (s, [])"
| "playAll ((env, msg) # rest) s =
     (case audio_output env msg s of (s', es, _) \<Rightarrow>
        (case playAll rest s' of (s'', es') \<Rightarrow> (s'', es @ es')))"

fun start_times :: "Effect list \<Rightarrow> real list" where
  "start_times [] = []"
| "start_times (SourceStart x t # es) = t # start_times es"
| "start_times (e # es) = start_times es"

section \<open>Drawing with the pointer\<close>

datatype ToolType = ToolPath | ToolRect | ToolCircle | ToolArrow | ToolText

type_synonym Point = "real \<times> real"

definition point_val :: "Point \<Rightarrow> jsval" where
  "point_val p = JObj [(''x'', JNum (fst p)), (''y'', JNum (snd p))]"

record HUD =
  isDrawing :: bool
  startPoint :: "Point option"
  currentPoints :: "Point list"
  previewDrawing :: "Drawing option"

definition initialHUD :: HUD where
  "initialHUD = \<lparr> isDrawing = False, startPoint = None, currentPoints = [], previewDrawing = None \<rparr>"

record MouseEvent =
  clientX :: real
  clientY :: real
  innerWidth :: real
  innerHeight :: real

text \<open>The event carries the size of the window at the time it is handled.\<close>

definition getNormalizedPos :: "MouseEvent \<Rightarrow> Point" where
  "getNormalizedPos e = ((clientX e / innerWidth e) * 1000, (clientY e / innerHeight e) * 1000)"

definition handleMouseDown :: "bool \<Rightarrow> MouseEvent \<Rightarrow> HUD \<Rightarrow> HUD" where
  "handleMouseDown active e h =
     (if \<not> active then h
      else (let pos = getNormalizedPos e
            in h\<lparr> isDrawing := True, startPoint := Some pos, currentPoints := [pos] \<rparr>))"

definition preview_for :: "ToolType \<Rightarrow> Point \<Rightarrow> Point \<Rightarrow> Point list \<Rightarrow> Drawing" where
  "preview_for tool sp pos pts =
     (let width = fst pos - fst sp; height = snd pos - snd sp
      in case tool of
           ToolPath \<Rightarrow>
             [(''id'', JStr ''preview''), (''type'', JStr ''path''),
              (''x'', JNum (fst sp)), (''y'', JNum (snd sp)),
              (''points'', JArr (map point_val (pts @ [pos]))),
              (''color'', JStr ''rgba(34, 211, 238, 0.6)'')]
         | ToolRect \<Rightarrow>
             [(''id'', JStr ''preview''), (''type'', JStr ''rect''),
              (''x'', JNum (fst sp + width / 2)), (''y'', JNum (snd sp + height / 2)),
              (''width'', JNum \<bar>width\<bar>), (''height'', JNum \<bar>height\<bar>),
              (''color'', JStr ''rgba(34, 211, 238, 0.6)'')]
         | ToolCircle \<Rightarrow>
             [(''id'', JStr ''preview''), (''type'', JStr ''circle''),
              (''x'', JNum (fst sp)), (''y'', JNum (snd sp)),
              (''width'', JNum (sqrt (width * width + height * height))),
              (''color'', JStr ''rgba(34, 211, 238, 0.6)'')]
         | ToolArrow \<Rightarrow>
             [(''id'', JStr ''preview''), (''type'', JStr ''arrow''),
              (''x'', JNum (fst sp)), (''y'', JNum (snd sp)),
              (''points'', JArr [point_val sp, point_val pos]),
              (''color'', JStr ''rgba(34, 211, 238, 0.6)'')]
         | ToolText \<Rightarrow>
             [(''id'', JStr ''preview''), (''type'', JStr ''text''),
              (''x'', JNum (fst pos)), (''y'', JNum (snd pos)),
              (''label'', JStr ''USER MARK''),
              (''color'', JStr ''rgba(34, 211, 238, 0.9)'')])"

definition handleMouseMove :: "ToolType \<Rightarrow> MouseEvent \<Rightarrow> HUD \<Rightarrow> HUD" where
  "handleMouseMove selectedTool e h =
     (case startPoint h of
        None \<Rightarrow> h
      | Some sp \<Rightarrow>
          if \<not> isDrawing h then h
          else (let pos = getNormalizedPos e
                in h\<lparr> currentPoints := currentPoints h @ [pos],
                       previewDrawing := Some (preview_for selectedTool sp pos (currentPoints h)) \<rparr>))"

text \<open>
  \<open>handleMouseUp\<close> reads the \<open>drawings\<close> it was given by \<open>App\<close> and commits through
  \<open>setDrawings\<close>, which is \<open>updateDrawings\<close>. \<open>now\<close> is the reading of \<open>Date.now()\<close>.
\<close>

definition handleMouseUp :: "nat \<Rightarrow> HUD \<times> App \<Rightarrow> JsError + (HUD \<times> App)" where
  "handleMouseUp now hs =
     (case hs of (h, s) \<Rightarrow>
        (case previewDrawing h of
           None \<Rightarrow> Inr (h\<lparr> isDrawing := False, startPoint := None \<rparr>, s)
         | Some preview \<Rightarrow>
             if \<not> isDrawing h then Inr (h\<lparr> isDrawing := False, startPoint := None \<rparr>, s)
             else (case drawings s of
                     None \<Rightarrow> Inl TypeError
                   | Some ds \<Rightarrow>
                       (let finalDrawing =
                              set_prop ''color'' (JStr ''#22d3ee'')
                                (set_prop ''id'' (JStr (''user-'' @ show_nat now)) (spread [] preview))
                        in Inr (h\<lparr> isDrawing := False, startPoint := None,
                                   previewDrawing := None, currentPoints := [] \<rparr>,
                                updateDrawings (ds @ [finalDrawing]) s)))))"

section \<open>Starting a session\<close>

text \<open>
  What \<open>startJarvis\<close> obtains from the browser and the SDK: the tracks of the screen
  capture and of the microphone (\<open>None\<close> when the request is rejected, with the message of
  the error), and the names of the two audio contexts, the analyser and the session promise.
\<close>

record Acquired =
  displayMedia :: "nat list option"
  userMedia :: "nat list option"
  failureMessage :: string
  newInputCtx :: nat
  newOutputCtx :: nat
  newAnalyser :: nat
  newSession :: nat

definition startFailed :: "(nat \<Rightarrow> bool) \<Rightarrow> Acquired \<Rightarrow> App \<Rightarrow> App \<times> Effect list" where
  "startFailed throws a s =
     cleanup throws
       (s\<lparr> error := Some (if failureMessage a = [] then ''System uplink failure.''
                            else failureMessage a),
           isConnecting := False \<rparr>)"

definition startJarvis :: "(nat \<Rightarrow> bool) \<Rightarrow> Acquired \<Rightarrow> App \<Rightarrow> App \<times> Effect list" where
  "startJarvis throws a s =
     (let s1 = s\<lparr> isConnecting := True, error := None \<rparr>
      in case displayMedia a of
           None \<Rightarrow> startFailed throws a s1
         | Some stream \<Rightarrow>
             (case userMedia a of
                None \<Rightarrow> startFailed throws a s1
              | Some micStream \<Rightarrow>
                  (s1\<lparr> screenStream := Some stream, micStreamRef := Some micStream,
                       inputAudioCtxRef := Some (newInputCtx a),
                       outputAudioCtxRef := Some (newOutputCtx a),
                       outputAnalyserRef := Some (newAnalyser a),
                       sessionPromiseRef := Some (newSession a) \<rparr>, [])))"

text \<open>\<open>onopen\<close>, with the handle that \<open>window.setInterval\<close> returns for the frame timer.\<close>

definition onopen :: "nat \<Rightarrow> App \<Rightarrow> App" where
  "onopen handle s = s\<lparr> isConnecting := False, isActive := True, frameIntervalRef := Some handle \<rparr>"

section \<open>The tool schema\<close>

text \<open>
  \<open>markScreenTool\<close> declares a mark as an object whose required \<open>type\<close> is one of five
  words and whose required \<open>x\<close> and \<open>y\<close> are numbers.
\<close>

fun wellFormedMark :: "jsval \<Rightarrow> bool" where
  "wellFormedMark (JObj ps) =
     (case (get_prop ''type'' ps, get_prop ''x'' ps, get_prop ''y'' ps) of
        (Some (JStr t), Some (JNum _), Some (JNum _)) \<Rightarrow>
           t \<in> set [''circle'', ''rect'', ''arrow'', ''text'', ''path'']
      | _ \<Rightarrow> False)"
| "wellFormedMark _ = False"

section \<open>Auxiliary notions and sample inputs\<close>

text \<open>The duration of the chunk a message carries, when it carries one that decodes.\<close>

definition chunk_duration :: "Env \<times> LiveServerMessage \<Rightarrow> real option" where
  "chunk_duration c =
     (case audioData (snd c) of
        None \<Rightarrow> None
      | Some a \<Rightarrow> if a \<noteq> [] then decodeAudioData (fst c) a else None)"

definition cursor_at_top :: "App \<Rightarrow> bool" where
  "cursor_at_top s \<longleftrightarrow>
     length (historyRef s) \<le> 50 \<and> historyIndexRef s = int (length (historyRef s)) - 1"

definition emptyMessage :: LiveServerMessage where
  "emptyMessage = \<lparr> audioData = None, toolCall = None, inputTranscription = None,
     outputTranscription = None, turnComplete = False, interrupted = False \<rparr>"

text \<open>An environment at playback time \<open>t\<close> and wall-clock time \<open>w\<close>; every chunk lasts half a second.\<close>

definition sampleEnv :: "real \<Rightarrow> nat \<Rightarrow> Env" where
  "sampleEnv t w = \<lparr> currentTime = t, dateNow = (\<lambda>k i. w), wallClock = w,
     stopThrows = (\<lambda>x. False), decodeAudioData = (\<lambda>a. Some (1 / 2)) \<rparr>"

definition sampleAcquired :: Acquired where
  "sampleAcquired = \<lparr> displayMedia = Some [10], userMedia = Some [20], failureMessage = [],
     newInputCtx = 30, newOutputCtx = 31, newAnalyser = 32, newSession = 1 \<rparr>"

text \<open>A session started once: \<open>startJarvis\<close> succeeded and \<open>onopen\<close> ran, with timer handle 7.\<close>

definition startedApp :: App where
  "startedApp = onopen 7 (fst (startJarvis (\<lambda>x. False) sampleAcquired initialApp))"

definition circleMark :: jsval where
  "circleMark = JObj [(''type'', JStr ''circle''), (''x'', JNum 500), (''y'', JNum 500),
                      (''width'', JNum 50)]"

definition markCall :: "string \<Rightarrow> jsval list \<Rightarrow> FunctionCall" where
  "markCall cid ms = \<lparr> callId = cid, name = ''mark_screen'', args = JObj [(''marks'', JArr ms)] \<rparr>"

definition mouseAt :: "real \<Rightarrow> real \<Rightarrow> MouseEvent" where
  "mouseAt cx cy = \<lparr> clientX = cx, clientY = cy, innerWidth = 1000, innerHeight = 1000 \<rparr>"

text \<open>
  A drag with the rect tool from (200,200) to (400,300) whose release never reaches the
  component, for instance because the button is let go outside the window.
\<close>

definition unfinishedDrag :: HUD where
  "unfinishedDrag =
     handleMouseMove ToolRect (mouseAt 400 300) (handleMouseDown True (mouseAt 200 200) initialHUD)"

definition chunkMsg :: LiveServerMessage where
  "chunkMsg = emptyMessage\<lparr> audioData := Some ''UklGRg=='' \<rparr>"

text \<open>Three chunks, arriving at playback times 1, 1.1 and 3.\<close>

definition sampleChunks :: "(Env \<times> LiveServerMessage) list" where
  "sampleChunks =
     [(sampleEnv 1 0, chunkMsg), (sampleEnv (11 / 10) 0, chunkMsg), (sampleEnv 3 0, chunkMsg)]"

definition playingApp :: App where
  "playingApp = fst (playAll sampleChunks startedApp)"


text \<open>A mark with neither a type nor a \<open>y\<close>.\<close>

definition badMark :: jsval where
  "badMark = JObj [(''x'', JNum 10)]"

text \<open>One tool call message that asks twice for the same circle.\<close>

definition twoCallsMsg :: LiveServerMessage where
  "twoCallsMsg = emptyMessage\<lparr> toolCall :=
     Some [markCall ''call-1'' [circleMark], markCall ''call-2'' [circleMark]] \<rparr>"

definition turnCompleteMsg :: LiveServerMessage where
  "turnCompleteMsg = emptyMessage\<lparr> turnComplete := True \<rparr>"

definition userTextMsg :: LiveServerMessage where
  "userTextMsg = emptyMessage\<lparr> inputTranscription := Some (Some ''hello'') \<rparr>"

text \<open>
  A turn completes at wall-clock time 0; one second later the user is heard again.
\<close>

definition afterTurnComplete :: App where
  "afterTurnComplete = fst (onmessage (sampleEnv 0 0) turnCompleteMsg startedApp)"

definition afterNewText :: App where
  "afterNewText = fst (onmessage (sampleEnv 0 1000) userTextMsg afterTurnComplete)"

section \<open>Properties of the history\<close>


lemma length_slice0_le: "length (slice0 xs e) \<le> length xs"
  by (simp add: slice0_def)

lemma updateDrawings_bounds:
  assumes "length (historyRef s) \<le> 50"
  shows "length (historyRef (updateDrawings d s)) \<le> 50"
    and "historyIndexRef (updateDrawings d s) = int (length (historyRef (updateDrawings d s))) - 1"
    and "historyRef (updateDrawings d s) \<noteq> []"
proof -
  have "length (slice0 (historyRef s) (historyIndexRef s + 1)) \<le> 50"
    using assms length_slice0_le [of "historyRef s" "historyIndexRef s + 1"] by linarith
  then show "length (historyRef (updateDrawings d s)) \<le> 50"
    by (simp add: updateDrawings_def Let_def)
  show "historyIndexRef (updateDrawings d s) = int (length (historyRef (updateDrawings d s))) - 1"
    by (simp add: updateDrawings_def Let_def)
  show "historyRef (updateDrawings d s) \<noteq> []"
    by (cases "slice0 (historyRef s) (historyIndexRef s + 1)") (auto simp add: updateDrawings_def Let_def)
qed

lemma cursor_at_top_update: "cursor_at_top s \<Longrightarrow> cursor_at_top (updateDrawings d s)"
  using updateDrawings_bounds [of s d] by (simp add: cursor_at_top_def)

lemma cursor_at_top_applyAll: "cursor_at_top s \<Longrightarrow> cursor_at_top (applyAll ds s)"
  by (induction ds arbitrary: s) (simp_all add: cursor_at_top_update)

lemma cursor_at_top_initial: "cursor_at_top initialApp"
  by (simp add: cursor_at_top_def initialApp_def)

lemma push_at_top:
  assumes "cursor_at_top s"
  shows "historyRef (updateDrawings d s) =
           (if length (historyRef s) = 50 then tl (historyRef s) @ [d] else historyRef s @ [d])"
proof -
  have "slice0 (historyRef s) (historyIndexRef s + 1) = historyRef s"
    using assms by (simp add: cursor_at_top_def slice0_def)
  moreover have "length (historyRef s) = 50 \<Longrightarrow> historyRef s \<noteq> []" by auto
  ultimately show ?thesis
    using assms by (auto simp add: updateDrawings_def Let_def cursor_at_top_def)
qed

lemma last_pushed: 
  assumes "length (historyRef s) \<le> 50"
  shows "js_index (historyRef (updateDrawings d s)) (historyIndexRef (updateDrawings d s)) = Some d"
proof -
  let ?h = "historyRef (updateDrawings d s)"
  have ne: "?h \<noteq> []" and ix: "historyIndexRef (updateDrawings d s) = int (length ?h) - 1"
    using updateDrawings_bounds [OF assms] by simp_all
  have "last ?h = d"
    by (cases "slice0 (historyRef s) (historyIndexRef s + 1)")
       (simp_all add: updateDrawings_def Let_def)
  moreover have "?h ! (length ?h - 1) = last ?h" using ne by (simp add: last_conv_nth)
  moreover have "nat (int (length ?h) - 1) = length ?h - 1" by simp
  ultimately show ?thesis using ne ix by (simp add: js_index_def)
qed

text \<open>
  Claim C2. After any finite run of \<open>updateDrawings\<close> calls from the initial state (empty
  history, cursor -1) the history holds at most 50 snapshots and the cursor lies between
  -1 and the last index. A further push leaves the cursor on the snapshot just pushed, and
  when the history is full the push drops the oldest snapshot.
\<close>

theorem history_bounded:
  "length (historyRef (applyAll ds initialApp)) \<le> 50
   \<and> - 1 \<le> historyIndexRef (applyAll ds initialApp)
   \<and> historyIndexRef (applyAll ds initialApp) \<le> int (length (historyRef (applyAll ds initialApp))) - 1
   \<and> js_index (historyRef (updateDrawings d (applyAll ds initialApp)))
        (historyIndexRef (updateDrawings d (applyAll ds initialApp))) = Some d
   \<and> (length (historyRef (applyAll ds initialApp)) = 50 \<longrightarrow>
        historyRef (updateDrawings d (applyAll ds initialApp))
          = tl (historyRef (applyAll ds initialApp)) @ [d])"
proof -
  let ?s = "applyAll ds initialApp"
  have top: "cursor_at_top ?s"
    by (rule cursor_at_top_applyAll [OF cursor_at_top_initial])
  then have len: "length (historyRef ?s) \<le> 50"
    and ix: "historyIndexRef ?s = int (length (historyRef ?s)) - 1"
    by (simp_all add: cursor_at_top_def)
  have "- 1 \<le> historyIndexRef ?s" using ix by simp
  moreover have "historyIndexRef ?s \<le> int (length (historyRef ?s)) - 1" using ix by simp
  moreover note len last_pushed [OF len, of d]
  moreover have "length (historyRef ?s) = 50 \<longrightarrow>
        historyRef (updateDrawings d ?s) = tl (historyRef ?s) @ [d]"
    using push_at_top [OF top, of d] by simp
  ultimately show ?thesis by blast
qed

theorem history_bounded_witness:
  "length (historyRef (applyAll (replicate 50 []) initialApp)) = 50
   \<and> historyRef (updateDrawings [[(''id'', JStr ''a'')]] (applyAll (replicate 50 []) initialApp))
       = tl (historyRef (applyAll (replicate 50 []) initialApp)) @ [[[(''id'', JStr ''a'')]]]
   \<and> js_index (historyRef (updateDrawings [[(''id'', JStr ''a'')]] (applyAll (replicate 50 []) initialApp)))
        (historyIndexRef (updateDrawings [[(''id'', JStr ''a'')]] (applyAll (replicate 50 []) initialApp)))
       = Some [[(''id'', JStr ''a'')]]"
proof -
  have full: "length (historyRef (applyAll (replicate 50 []) initialApp)) = 50"
    by code_simp
  show ?thesis
    using full history_bounded [of "replicate 50 []" "[[(''id'', JStr ''a'')]]"] by blast
qed

text \<open>
  Claim C7. With snapshots A, B, C and the cursor at 2, \<open>undo\<close> moves the cursor to 1 and
  shows B; \<open>updateDrawings D\<close> then leaves the stack A, B, D with the cursor at 2: the
  snapshot beyond the cursor is gone.
\<close>

theorem undo_then_push:
  "historyIndexRef (undo (s\<lparr> historyRef := [A, B, C], historyIndexRef := 2 \<rparr>)) = 1
   \<and> drawingsRef (undo (s\<lparr> historyRef := [A, B, C], historyIndexRef := 2 \<rparr>)) = Some B
   \<and> historyRef (updateDrawings D (undo (s\<lparr> historyRef := [A, B, C], historyIndexRef := 2 \<rparr>)))
        = [A, B, D]
   \<and> historyIndexRef (updateDrawings D (undo (s\<lparr> historyRef := [A, B, C], historyIndexRef := 2 \<rparr>)))
        = 2
   \<and> drawingsRef (updateDrawings D (undo (s\<lparr> historyRef := [A, B, C], historyIndexRef := 2 \<rparr>)))
        = Some D"
  by (simp add: undo_def updateDrawings_def js_index_def slice0_def Let_def)

text \<open>
  Claim C8. On a non-empty history, \<open>undo\<close> at cursor 0 moves the cursor to -1 and empties
  the drawing list, and \<open>redo\<close> at cursor -1 moves the cursor to 0 and shows snapshot 0.
\<close>

theorem undo_redo_at_bottom:
  "historyRef s \<noteq> [] \<Longrightarrow>
     historyIndexRef (undo (s\<lparr> historyIndexRef := 0 \<rparr>)) = - 1
     \<and> drawingsRef (undo (s\<lparr> historyIndexRef := 0 \<rparr>)) = Some []
     \<and> historyIndexRef (redo (s\<lparr> historyIndexRef := - 1 \<rparr>)) = 0
     \<and> drawingsRef (redo (s\<lparr> historyIndexRef := - 1 \<rparr>)) = Some (hd (historyRef s))"
  by (cases "historyRef s") (simp_all add: undo_def redo_def js_index_def Let_def)


theorem undo_redo_at_bottom_witness:
  "historyRef (initialApp\<lparr> historyRef := [[[(''id'', JStr ''a'')]]] \<rparr>) = [[[(''id'', JStr ''a'')]]]
   \<and> historyIndexRef (undo (initialApp\<lparr> historyRef := [[[(''id'', JStr ''a'')]]], historyIndexRef := 0 \<rparr>)) = - 1
   \<and> drawingsRef (undo (initialApp\<lparr> historyRef := [[[(''id'', JStr ''a'')]]], historyIndexRef := 0 \<rparr>)) = Some []
   \<and> historyIndexRef (redo (initialApp\<lparr> historyRef := [[[(''id'', JStr ''a'')]]], historyIndexRef := - 1 \<rparr>)) = 0
   \<and> drawingsRef (redo (initialApp\<lparr> historyRef := [[[(''id'', JStr ''a'')]]], historyIndexRef := - 1 \<rparr>))
       = Some [[(''id'', JStr ''a'')]]"
proof -
  have ne: "historyRef (initialApp\<lparr> historyRef := [[[(''id'', JStr ''a'')]]] \<rparr>) \<noteq> []"
    by simp
  show ?thesis
    using undo_redo_at_bottom [OF ne] by simp
qed

section \<open>Properties of teardown and playback\<close>


lemma stop_each_map: "stop_each throws xs = map SourceStop xs"
  by (induction xs) (simp_all add: source_stop_def)

lemma cleanup_state_idem: "fst (cleanup throws (fst (cleanup throws s))) = fst (cleanup throws s)"
  by (simp add: cleanup_def)

lemma cleanup_again_effects:
  "snd (cleanup throws (fst (cleanup throws s))) =
     (case frameIntervalRef s of Some h \<Rightarrow> if h \<noteq> 0 then [ClearInterval h] else [] | None \<Rightarrow> [])
     @ (case micStreamRef s of Some tracks \<Rightarrow> map TrackStop tracks | None \<Rightarrow> [])"
  by (simp add: cleanup_def)

lemma startedApp_refs:
  "frameIntervalRef startedApp = Some 7" "micStreamRef startedApp = Some [20]"
  "sourcesRef startedApp = []" "inputAudioCtxRef startedApp = Some 30"
  "outputAudioCtxRef startedApp = Some 31" "sessionPromiseRef startedApp = Some 1"
  by (simp_all add: startedApp_def onopen_def startJarvis_def sampleAcquired_def initialApp_def Let_def)

text \<open>
  Claim C1. Teardown called again after a started session should release nothing further.
  The state is indeed the same after every call, but the frame timer handle and the
  microphone stream are never forgotten, so each later call clears the timer and stops the
  microphone tracks once more. Here \<open>cleanup\<close> runs three times on a started session.
\<close>

theorem cleanup_releases_again:
  "snd (cleanups 3 (\<lambda>x. False) startedApp) =
     [[ClearInterval 7, TrackStop 20, ContextClose 30, ContextClose 31, SessionClose 1],
      [ClearInterval 7, TrackStop 20],
      [ClearInterval 7, TrackStop 20]]"
  by (simp add: numeral_3_eq_3 cleanup_def startedApp_refs split: prod.splits)


lemma audio_step:
  assumes "outputAudioCtxRef s \<noteq> None" "outputAnalyserRef s \<noteq> None"
    and "chunk_duration (env, msg) = Some d"
  shows "audio_output env msg s =
           (s\<lparr> nextStartTimeRef := max (nextStartTimeRef s) (currentTime env) + d,
               sourceCount := Suc (sourceCount s),
               sourcesRef := set_add (sourceCount s) (sourcesRef s) \<rparr>,
            [SourceStart (sourceCount s) (max (nextStartTimeRef s) (currentTime env))], None)"
  using assms
  by (auto simp add: audio_output_def chunk_duration_def Let_def split: option.splits if_splits)

lemma audio_output_ctx:
  "outputAudioCtxRef (fst (audio_output env msg s)) = outputAudioCtxRef s"
  "outputAnalyserRef (fst (audio_output env msg s)) = outputAnalyserRef s"
  by (auto simp add: audio_output_def Let_def split: option.splits)

lemma playAll_Cons_fst:
  "fst (playAll (c # cs) s) = fst (playAll cs (fst (audio_output (fst c) (snd c) s)))"
  by (cases c) (simp split: prod.splits)

lemma playAll_Cons_snd:
  "snd (playAll (c # cs) s) =
     fst (snd (audio_output (fst c) (snd c) s)) @ snd (playAll cs (fst (audio_output (fst c) (snd c) s)))"
  by (cases c) (simp split: prod.splits)

lemma start_times_append: "start_times (es @ fs) = start_times es @ start_times fs"
  by (induction es rule: start_times.induct) simp_all

lemma schedule_facts:
  assumes "outputAudioCtxRef s \<noteq> None" "outputAnalyserRef s \<noteq> None"
    and "\<forall>c \<in> set cs. chunk_duration c \<noteq> None"
  shows "length (start_times (snd (playAll cs s))) = length cs
    \<and> (\<forall>i < length cs.
          start_times (snd (playAll cs s)) ! i
            = max (nextStartTimeRef (fst (playAll (take i cs) s))) (currentTime (fst (cs ! i)))
        \<and> nextStartTimeRef (fst (playAll (take (Suc i) cs) s))
            = start_times (snd (playAll cs s)) ! i + the (chunk_duration (cs ! i)))"
  using assms
proof (induction cs arbitrary: s)
  case Nil
  then show ?case by simp
next
  case (Cons c cs)
  obtain d where d: "chunk_duration c = Some d" using Cons.prems(3) by auto
  let ?s' = "fst (audio_output (fst c) (snd c) s)"
  let ?t = "max (nextStartTimeRef s) (currentTime (fst c))"
  have step: "audio_output (fst c) (snd c) s =
           (s\<lparr> nextStartTimeRef := ?t + d,
               sourceCount := Suc (sourceCount s),
               sourcesRef := set_add (sourceCount s) (sourcesRef s) \<rparr>,
            [SourceStart (sourceCount s) ?t], None)"
    using audio_step [OF Cons.prems(1,2), of "fst c" "snd c" d] d by simp
  have ctx: "outputAudioCtxRef ?s' \<noteq> None" "outputAnalyserRef ?s' \<noteq> None"
    using Cons.prems(1,2) by (simp_all add: audio_output_ctx)
  have ok: "\<forall>c \<in> set cs. chunk_duration c \<noteq> None" using Cons.prems(3) by simp
  note IH = Cons.IH [OF ctx ok]
  have starts: "start_times (snd (playAll (c # cs) s)) = ?t # start_times (snd (playAll cs ?s'))"
    by (simp add: playAll_Cons_snd start_times_append step)
  have nst': "nextStartTimeRef ?s' = ?t + d" by (simp add: step)
  show ?case
  proof (intro conjI allI impI)
    show "length (start_times (snd (playAll (c # cs) s))) = length (c # cs)"
      using IH starts by simp
  next
    fix i assume i: "i < length (c # cs)"
    show "start_times (snd (playAll (c # cs) s)) ! i
            = max (nextStartTimeRef (fst (playAll (take i (c # cs)) s))) (currentTime (fst ((c # cs) ! i)))"
    proof (cases i)
      case 0
      then show ?thesis by (simp add: starts)
    next
      case (Suc j)
      then have "j < length cs" using i by simp
      then show ?thesis using IH Suc by (simp add: starts playAll_Cons_fst)
    qed
  next
    fix i assume i: "i < length (c # cs)"
    show "nextStartTimeRef (fst (playAll (take (Suc i) (c # cs)) s))
            = start_times (snd (playAll (c # cs) s)) ! i + the (chunk_duration ((c # cs) ! i))"
    proof (cases i)
      case 0
      then show ?thesis by (simp add: starts playAll_Cons_fst nst' d)
    next
      case (Suc j)
      then have "j < length cs" using i by simp
      then show ?thesis using IH Suc by (simp add: starts playAll_Cons_fst)
    qed
  qed
qed

text \<open>
  Claim C3. For chunks handled one after the other with no interruption, while the output
  context and analyser exist and every chunk decodes: chunk \<open>i\<close> starts at the maximum of
  \<open>nextStartTime\<close> and the playback clock read for it, \<open>nextStartTime\<close> becomes that start
  plus the chunk's duration, and so the start is at least the clock reading and at least
  the previous start plus the previous duration.
\<close>

theorem scheduler_chain:
  assumes "outputAudioCtxRef s \<noteq> None" and "outputAnalyserRef s \<noteq> None"
    and "\<forall>c \<in> set cs. chunk_duration c \<noteq> None"
  shows "length (start_times (snd (playAll cs s))) = length cs
    \<and> (\<forall>i < length cs.
          start_times (snd (playAll cs s)) ! i
            = max (nextStartTimeRef (fst (playAll (take i cs) s))) (currentTime (fst (cs ! i)))
        \<and> nextStartTimeRef (fst (playAll (take (Suc i) cs) s))
            = start_times (snd (playAll cs s)) ! i + the (chunk_duration (cs ! i))
        \<and> currentTime (fst (cs ! i)) \<le> start_times (snd (playAll cs s)) ! i
        \<and> (0 < i \<longrightarrow>
             start_times (snd (playAll cs s)) ! (i - 1) + the (chunk_duration (cs ! (i - 1)))
               \<le> start_times (snd (playAll cs s)) ! i))"
proof -
  let ?st = "start_times (snd (playAll cs s))"
  let ?nst = "\<lambda>i. nextStartTimeRef (fst (playAll (take i cs) s))"
  note F = schedule_facts [OF assms]
  have A: "\<And>i. i < length cs \<Longrightarrow> ?st ! i = max (?nst i) (currentTime (fst (cs ! i)))"
    using F by blast
  have B: "\<And>i. i < length cs \<Longrightarrow> ?nst (Suc i) = ?st ! i + the (chunk_duration (cs ! i))"
    using F by blast
  have C: "\<And>i. i < length cs \<Longrightarrow> currentTime (fst (cs ! i)) \<le> ?st ! i"
    using A by simp
  have D: "\<And>i. i < length cs \<Longrightarrow> 0 < i \<Longrightarrow>
             ?st ! (i - 1) + the (chunk_duration (cs ! (i - 1))) \<le> ?st ! i"
  proof -
    fix i assume i: "i < length cs" "0 < i"
    then have "?nst (Suc (i - 1)) = ?st ! (i - 1) + the (chunk_duration (cs ! (i - 1)))"
      using B [of "i - 1"] by simp
    moreover have "Suc (i - 1) = i" using i by simp
    moreover have "?nst i \<le> ?st ! i" using A [OF i(1)] by simp
    ultimately show "?st ! (i - 1) + the (chunk_duration (cs ! (i - 1))) \<le> ?st ! i" by simp
  qed
  show ?thesis using F A B C D by blast
qed

lemma sample_chunk: "chunk_duration (sampleEnv t w, chunkMsg) = Some (1/2)"
  by (simp add: chunk_duration_def sampleEnv_def chunkMsg_def emptyMessage_def)

theorem scheduler_chain_witness:
  "outputAudioCtxRef startedApp = Some 31 \<and> outputAnalyserRef startedApp = Some 32
   \<and> chunk_duration (sampleChunks ! 0) = Some (1 / 2)
   \<and> chunk_duration (sampleChunks ! 1) = Some (1 / 2)
   \<and> chunk_duration (sampleChunks ! 2) = Some (1 / 2)
   \<and> length (start_times (snd (playAll sampleChunks startedApp))) = 3
   \<and> currentTime (fst (sampleChunks ! 1)) \<le> start_times (snd (playAll sampleChunks startedApp)) ! 1
   \<and> start_times (snd (playAll sampleChunks startedApp)) ! 0 + 1 / 2
       \<le> start_times (snd (playAll sampleChunks startedApp)) ! 1"
proof -
  have ctx: "outputAudioCtxRef startedApp = Some 31" "outputAnalyserRef startedApp = Some 32"
    by (simp_all add: startedApp_def onopen_def startJarvis_def sampleAcquired_def
          initialApp_def Let_def)
  have d: "chunk_duration (sampleChunks ! 0) = Some (1 / 2)"
       "chunk_duration (sampleChunks ! 1) = Some (1 / 2)"
       "chunk_duration (sampleChunks ! 2) = Some (1 / 2)"
    by (simp_all add: sampleChunks_def sample_chunk)
  have h1: "outputAudioCtxRef startedApp \<noteq> None" and h2: "outputAnalyserRef startedApp \<noteq> None"
    using ctx by simp_all
  have "\<forall>c \<in> set sampleChunks. chunk_duration c = Some (1 / 2)"
    by (simp add: sampleChunks_def sample_chunk)
  then have h3: "\<forall>c \<in> set sampleChunks. chunk_duration c \<noteq> None"
    by (metis option.distinct(1))
  have n: "length sampleChunks = 3" by (simp add: sampleChunks_def)
  note T = scheduler_chain [OF h1 h2 h3]
  have len: "length (start_times (snd (playAll sampleChunks startedApp))) = 3"
    using T n by simp
  have at1: "currentTime (fst (sampleChunks ! 1)) \<le> start_times (snd (playAll sampleChunks startedApp)) ! 1
     \<and> start_times (snd (playAll sampleChunks startedApp)) ! (1 - 1)
           + the (chunk_duration (sampleChunks ! (1 - 1)))
         \<le> start_times (snd (playAll sampleChunks startedApp)) ! 1"
    using T n by (metis (no_types, lifting) One_nat_def Suc_1 less_Suc_eq numeral_3_eq_3 zero_less_one)
  show ?thesis using ctx d len at1 by simp
qed

text \<open>
  Claim C4. An interruption calls \<open>stop\<close> on every source of the active set, whether or
  not a call raises, empties the set and puts \<open>nextStartTime\<close> back to 0. A chunk handled
  next (the contexts existing, the chunk decoding, the playback clock not negative) starts
  at the clock reading of its own handler run.
\<close>

theorem interruption_resets:
  assumes "interrupted msg"
  shows "interruption env msg s
           = (s\<lparr> sourcesRef := [], nextStartTimeRef := 0 \<rparr>, map SourceStop (sourcesRef s), None)
    \<and> sourcesRef (fst (interruption env msg s)) = []
    \<and> nextStartTimeRef (fst (interruption env msg s)) = 0
    \<and> (outputAudioCtxRef s \<noteq> None \<and> outputAnalyserRef s \<noteq> None
         \<and> chunk_duration (env', msg') \<noteq> None \<and> 0 \<le> currentTime env' \<longrightarrow>
         fst (snd (audio_output env' msg' (fst (interruption env msg s))))
           = [SourceStart (sourceCount s) (currentTime env')])"
proof -
  have I: "interruption env msg s
           = (s\<lparr> sourcesRef := [], nextStartTimeRef := 0 \<rparr>, map SourceStop (sourcesRef s), None)"
    using assms by (simp add: interruption_def stop_each_map)
  have "fst (snd (audio_output env' msg' (s\<lparr> sourcesRef := [], nextStartTimeRef := 0 \<rparr>)))
           = [SourceStart (sourceCount s) (currentTime env')]"
    if h: "outputAudioCtxRef s \<noteq> None" "outputAnalyserRef s \<noteq> None"
      "chunk_duration (env', msg') \<noteq> None" "0 \<le> currentTime env'"
  proof -
    obtain d where "chunk_duration (env', msg') = Some d" using h(3) by auto
    then show ?thesis
      using audio_step [of "s\<lparr> sourcesRef := [], nextStartTimeRef := 0 \<rparr>" env' msg' d] h
      by (simp add: max_def)
  qed
  then show ?thesis using I by simp
qed

theorem interruption_resets_witness:
  "interrupted (emptyMessage\<lparr> interrupted := True \<rparr>)
   \<and> sourcesRef playingApp = [0, 1, 2] \<and> nextStartTimeRef playingApp = 7 / 2
   \<and> fst (snd (interruption ((sampleEnv 2 0)\<lparr> stopThrows := (\<lambda>x. x = 1) \<rparr>)
                  (emptyMessage\<lparr> interrupted := True \<rparr>) playingApp))
       = [SourceStop 0, SourceStop 1, SourceStop 2]
   \<and> sourcesRef (fst (interruption ((sampleEnv 2 0)\<lparr> stopThrows := (\<lambda>x. x = 1) \<rparr>)
                  (emptyMessage\<lparr> interrupted := True \<rparr>) playingApp)) = []
   \<and> chunk_duration (sampleEnv 2 0, chunkMsg) = Some (1 / 2)
   \<and> fst (snd (audio_output (sampleEnv 2 0) chunkMsg
                  (fst (interruption ((sampleEnv 2 0)\<lparr> stopThrows := (\<lambda>x. x = 1) \<rparr>)
                          (emptyMessage\<lparr> interrupted := True \<rparr>) playingApp))))
       = [SourceStart 3 2]"
proof -
  have i: "interrupted (emptyMessage\<lparr> interrupted := True \<rparr>)" by simp
  have st: "sourcesRef playingApp = [0, 1, 2]" "nextStartTimeRef playingApp = 7 / 2"
      "sourceCount playingApp = 3"
      "outputAudioCtxRef playingApp = Some 31" "outputAnalyserRef playingApp = Some 32"
    by (simp_all add: playingApp_def sampleChunks_def startedApp_def onopen_def startJarvis_def
          sampleAcquired_def initialApp_def Let_def audio_output_def sampleEnv_def chunkMsg_def
          emptyMessage_def set_add_def)
  have d: "chunk_duration (sampleEnv 2 0, chunkMsg) = Some (1 / 2)" by (rule sample_chunk)
  have t: "0 \<le> currentTime (sampleEnv 2 0)" by (simp add: sampleEnv_def)
  note T = interruption_resets [OF i, of "(sampleEnv 2 0)\<lparr> stopThrows := (\<lambda>x. x = 1) \<rparr>"
             playingApp "sampleEnv 2 0" chunkMsg]
  have pre: "outputAudioCtxRef playingApp \<noteq> None \<and> outputAnalyserRef playingApp \<noteq> None
         \<and> chunk_duration (sampleEnv 2 0, chunkMsg) \<noteq> None \<and> 0 \<le> currentTime (sampleEnv 2 0)"
    using st(4,5) d t by (metis option.distinct(1))
  have next_start: "fst (snd (audio_output (sampleEnv 2 0) chunkMsg
                  (fst (interruption ((sampleEnv 2 0)\<lparr> stopThrows := (\<lambda>x. x = 1) \<rparr>)
                          (emptyMessage\<lparr> interrupted := True \<rparr>) playingApp))))
       = [SourceStart (sourceCount playingApp) (currentTime (sampleEnv 2 0))]"
    using T pre by blast
  have stops: "interruption ((sampleEnv 2 0)\<lparr> stopThrows := (\<lambda>x. x = 1) \<rparr>)
                  (emptyMessage\<lparr> interrupted := True \<rparr>) playingApp
       = (playingApp\<lparr> sourcesRef := [], nextStartTimeRef := 0 \<rparr>,
          map SourceStop (sourcesRef playingApp), None)"
    using T by blast
  have now: "currentTime (sampleEnv 2 0) = 2" by (simp add: sampleEnv_def)
  show ?thesis
    using i st(1,2,3) d next_start stops now by simp
qed

section \<open>Properties of the tool calls\<close>

lemma show_nat_small: "show_nat 0 = ''0''" "show_nat (Suc 0) = ''1''" "show_nat 1000 = ''1000''"
  "show_nat 1700000000000 = ''1700000000000''"
  by (simp_all add: show_nat.simps digit_char_def)

lemma map_of_set_prop: "map_of (set_prop k v obj) = (map_of obj)(k \<mapsto> v)"
  by (induction obj) auto

lemma get_prop_spread:
  "get_prop k (spread base ps) =
     (case map_of (rev ps) k of Some v \<Rightarrow> Some v | None \<Rightarrow> get_prop k base)"
proof (induction ps arbitrary: base)
  case Nil
  then show ?case by (simp add: spread_def)
next
  case (Cons p ps)
  obtain k' v' where p: "p = (k', v')" by (cases p)
  have "spread base (p # ps) = spread (set_prop k' v' base) ps"
    by (simp add: spread_def p)
  then show ?case
    using Cons.IH [of "set_prop k' v' base"]
    by (auto simp add: p get_prop_def map_of_set_prop map_add_def split: option.splits)
qed

lemma length_newMarks: "length (newMarks now ms) = length ms"
  by (simp add: newMarks_def)

lemma nth_newMarks: "i < length ms \<Longrightarrow> newMarks now ms ! i = newMark (now i) i (ms ! i)"
  by (simp add: newMarks_def nth_enumerate_eq)

text \<open>
  Claim C5, as the code has it. The handler checks no mark: whenever \<open>marks\<close> is an array
  and the drawing list is defined, it appends one drawing for every supplied mark, in
  order, well-formed or not, and still acknowledges the call under its id. Each new drawing
  has every property of its mark, and the generated id \<open>ai-<now>-<index>\<close> unless the mark
  brings an \<open>id\<close> of its own.
\<close>

theorem mark_screen_keeps_every_mark:
  assumes "name fc = ''mark_screen''" and "marksOf (args fc) = Some ms"
  shows "handleCall now fc (s\<lparr> drawingsRef := Some ds \<rparr>)
           = (updateDrawings (ds @ newMarks now ms) (s\<lparr> drawingsRef := Some ds \<rparr>),
              [SendToolResponse (callId fc) ''mark_screen'' ''HUD marks deployed, Sir.''], None)
    \<and> drawingsRef (fst (handleCall now fc (s\<lparr> drawingsRef := Some ds \<rparr>)))
        = Some (ds @ newMarks now ms)
    \<and> length (newMarks now ms) = length ms
    \<and> (\<forall>i < length ms. \<forall>k.
          get_prop k (newMarks now ms ! i) =
            (case map_of (rev (own_props (ms ! i))) k of
               Some v \<Rightarrow> Some v
             | None \<Rightarrow> if k = ''id''
                       then Some (JStr (''ai-'' @ show_nat (now i) @ ''-'' @ show_nat i))
                       else None))"
proof -
  have H: "handleCall now fc (s\<lparr> drawingsRef := Some ds \<rparr>)
           = (updateDrawings (ds @ newMarks now ms) (s\<lparr> drawingsRef := Some ds \<rparr>),
              [SendToolResponse (callId fc) ''mark_screen'' ''HUD marks deployed, Sir.''], None)"
    using assms by (simp add: handleCall_def)
  have D: "drawingsRef (updateDrawings (ds @ newMarks now ms) (s\<lparr> drawingsRef := Some ds \<rparr>))
        = Some (ds @ newMarks now ms)"
    by (simp add: updateDrawings_def Let_def)
  have P: "get_prop k (newMarks now ms ! i) =
            (case map_of (rev (own_props (ms ! i))) k of
               Some v \<Rightarrow> Some v
             | None \<Rightarrow> if k = ''id''
                       then Some (JStr (''ai-'' @ show_nat (now i) @ ''-'' @ show_nat i))
                       else None)" if "i < length ms" for i k
  proof -
    have one: "get_prop k' [(''id'', v)] = (if k' = ''id'' then Some v else None)" for v k'
      by (simp add: get_prop_def)
    show ?thesis
      using that by (simp add: nth_newMarks newMark_def get_prop_spread one split: option.split)
  qed
  show ?thesis using H D P by (simp add: length_newMarks)
qed

theorem mark_screen_keeps_every_mark_witness:
  "name (markCall ''call-1'' [circleMark, badMark]) = ''mark_screen''
   \<and> marksOf (args (markCall ''call-1'' [circleMark, badMark])) = Some [circleMark, badMark]
   \<and> drawingsRef (fst (handleCall (\<lambda>i. 1000) (markCall ''call-1'' [circleMark, badMark])
                          (initialApp\<lparr> drawingsRef := Some [] \<rparr>)))
       = Some ([] @ newMarks (\<lambda>i. 1000) [circleMark, badMark])
   \<and> fst (snd (handleCall (\<lambda>i. 1000) (markCall ''call-1'' [circleMark, badMark])
                  (initialApp\<lparr> drawingsRef := Some [] \<rparr>)))
       = [SendToolResponse ''call-1'' ''mark_screen'' ''HUD marks deployed, Sir.'']
   \<and> length (newMarks (\<lambda>i. 1000) [circleMark, badMark]) = 2"
proof -
  have n: "name (markCall ''call-1'' [circleMark, badMark]) = ''mark_screen''"
    by (simp add: markCall_def)
  have m: "marksOf (args (markCall ''call-1'' [circleMark, badMark])) = Some [circleMark, badMark]"
    by (simp add: markCall_def get_prop_def)
  have c: "callId (markCall ''call-1'' [circleMark, badMark]) = ''call-1''"
    by (simp add: markCall_def)
  note T = mark_screen_keeps_every_mark [OF n m, where now = "\<lambda>i. 1000" and s = initialApp
             and ds = "[]"]
  have a: "drawingsRef (fst (handleCall (\<lambda>i. 1000) (markCall ''call-1'' [circleMark, badMark])
                          (initialApp\<lparr> drawingsRef := Some [] \<rparr>)))
       = Some ([] @ newMarks (\<lambda>i. 1000) [circleMark, badMark])"
    using T by blast
  have "handleCall (\<lambda>i. 1000) (markCall ''call-1'' [circleMark, badMark])
          (initialApp\<lparr> drawingsRef := Some [] \<rparr>)
        = (updateDrawings ([] @ newMarks (\<lambda>i. 1000) [circleMark, badMark])
             (initialApp\<lparr> drawingsRef := Some [] \<rparr>),
           [SendToolResponse (callId (markCall ''call-1'' [circleMark, badMark])) ''mark_screen''
              ''HUD marks deployed, Sir.''], None)"
    using T by blast
  then have b: "fst (snd (handleCall (\<lambda>i. 1000) (markCall ''call-1'' [circleMark, badMark])
                  (initialApp\<lparr> drawingsRef := Some [] \<rparr>)))
       = [SendToolResponse ''call-1'' ''mark_screen'' ''HUD marks deployed, Sir.'']"
    by (simp add: c)
  have "length (newMarks (\<lambda>i. 1000) [circleMark, badMark]) = length [circleMark, badMark]"
    using T by blast
  then have l: "length (newMarks (\<lambda>i. 1000) [circleMark, badMark]) = 2"
    by simp
  show ?thesis using n m a b l by blast
qed

text \<open>
  Claim C5 as stated fails: a mark that lacks the required \<open>type\<close> and \<open>y\<close> is not
  dropped, it becomes the second drawing of the list.
\<close>

theorem malformed_mark_is_appended:
  "\<not> wellFormedMark badMark \<and> wellFormedMark circleMark
   \<and> drawingsRef (fst (handleCall (\<lambda>i. 1000) (markCall ''call-1'' [circleMark, badMark]) initialApp))
       = Some [[(''id'', JStr ''ai-1000-0''), (''type'', JStr ''circle''), (''x'', JNum 500),
                (''y'', JNum 500), (''width'', JNum 50)],
               [(''id'', JStr ''ai-1000-1''), (''x'', JNum 10)]]"
  by (simp add: badMark_def circleMark_def get_prop_def handleCall_def markCall_def initialApp_def
        updateDrawings_def Let_def newMarks_def newMark_def spread_def show_nat_small)

text \<open>
  Claim C9. One \<open>mark_screen\<close> call with the circle at (500,500) and width 50 should add one
  circle whose fresh id differs from every id already in the list. The id is built from
  \<open>Date.now()\<close> and the index of the mark in its own call, so the same circle asked for
  twice within one millisecond yields two drawings with one id. Both calls are acknowledged
  under their own call ids.
\<close>

theorem mark_ids_collide:
  "drawingsRef (fst (onmessage (sampleEnv 0 1700000000000) twoCallsMsg startedApp))
     = Some [[(''id'', JStr ''ai-1700000000000-0''), (''type'', JStr ''circle''), (''x'', JNum 500),
              (''y'', JNum 500), (''width'', JNum 50)],
             [(''id'', JStr ''ai-1700000000000-0''), (''type'', JStr ''circle''), (''x'', JNum 500),
              (''y'', JNum 500), (''width'', JNum 50)]]
   \<and> fst (snd (onmessage (sampleEnv 0 1700000000000) twoCallsMsg startedApp))
     = [SendToolResponse ''call-1'' ''mark_screen'' ''HUD marks deployed, Sir.'',
        SendToolResponse ''call-2'' ''mark_screen'' ''HUD marks deployed, Sir.'']"
  by (simp add: onmessage_def andThen_def audio_output_def tool_handling_def twoCallsMsg_def
        emptyMessage_def sampleEnv_def handleCall_def markCall_def circleMark_def get_prop_def
        startedApp_def onopen_def startJarvis_def sampleAcquired_def initialApp_def
        updateDrawings_def slice0_def Let_def newMarks_def newMark_def spread_def show_nat_small
        transcription_step_def interruption_def)

section \<open>Properties of the transcript and of pointer drawing\<close>

lemma updateDrawings_pending: "pendingClears (updateDrawings d s) = pendingClears s"
  by (simp add: updateDrawings_def Let_def)

lemma audio_output_pending: "pendingClears (fst (audio_output env msg s)) = pendingClears s"
  by (auto simp add: audio_output_def Let_def split: option.splits)

lemma handleCall_pending: "pendingClears (fst (handleCall now fc s)) = pendingClears s"
  by (auto simp add: handleCall_def updateDrawings_pending split: option.splits)

lemma fst_andThen:
  "fst (andThen r f) = (if snd (snd r) = None then fst (f (fst r)) else fst r)"
  by (cases r) (auto simp add: andThen_def split: option.splits prod.splits)

lemma toolLoop_pending: "pendingClears (fst (toolLoop now k fcs s)) = pendingClears s"
  by (induction fcs arbitrary: s k) (simp_all add: fst_andThen handleCall_pending)

lemma tool_handling_pending: "pendingClears (fst (tool_handling env msg s)) = pendingClears s"
  by (simp add: tool_handling_def toolLoop_pending split: option.splits)

lemma transcription_step_pending:
  "pendingClears (transcription_step env msg s)
     = pendingClears s @ (if turnComplete msg then [wallClock env + 6000] else [])"
  by (simp add: transcription_step_def Let_def split: option.splits)

lemma interruption_pending: "pendingClears (fst (interruption env msg s)) = pendingClears s"
  by (simp add: interruption_def)

lemma onmessage_pending:
  "set (pendingClears s) \<subseteq> set (pendingClears (fst (onmessage env msg s)))"
  by (simp add: onmessage_def fst_andThen audio_output_pending tool_handling_pending
        interruption_pending transcription_step_pending)

lemma runTimeouts_clears:
  assumes "d \<in> set (pendingClears s)" and "d \<le> now"
  shows "transcriptionRef (runTimeouts now s) = ('''', '''')"
    and "transcription (runTimeouts now s) = ('''', '''')"
  using assms by (auto simp add: runTimeouts_def)

lemma updateDrawings_transcript:
  "transcriptionRef (updateDrawings d s) = transcriptionRef s"
  "transcription (updateDrawings d s) = transcription s"
  by (simp_all add: updateDrawings_def Let_def)

lemma audio_output_transcript:
  "transcriptionRef (fst (audio_output env msg s)) = transcriptionRef s"
  "transcription (fst (audio_output env msg s)) = transcription s"
  by (auto simp add: audio_output_def Let_def split: option.splits)

lemma handleCall_transcript:
  "transcriptionRef (fst (handleCall now fc s)) = transcriptionRef s"
  "transcription (fst (handleCall now fc s)) = transcription s"
  by (auto simp add: handleCall_def updateDrawings_transcript split: option.splits)

lemma toolLoop_transcript:
  "transcriptionRef (fst (toolLoop now k fcs s)) = transcriptionRef s
   \<and> transcription (fst (toolLoop now k fcs s)) = transcription s"
  by (induction fcs arbitrary: s k) (simp_all add: fst_andThen handleCall_transcript)

lemma tool_handling_transcript:
  "transcriptionRef (fst (tool_handling env msg s)) = transcriptionRef s"
  "transcription (fst (tool_handling env msg s)) = transcription s"
  by (simp_all add: tool_handling_def toolLoop_transcript split: option.splits)

lemma interruption_transcript:
  "transcriptionRef (fst (interruption env msg s)) = transcriptionRef s"
  "transcription (fst (interruption env msg s)) = transcription s"
  "snd (snd (interruption env msg s)) = None"
  by (simp_all add: interruption_def)

lemma err_andThen:
  "snd (snd (andThen r f)) = (if snd (snd r) = None then snd (snd (f (fst r))) else snd (snd r))"
  by (cases r) (auto simp add: andThen_def split: option.splits prod.splits)

lemma transcription_step_ref:
  "transcriptionRef (transcription_step env msg s) =
     (case inputTranscription msg of
        None \<Rightarrow> fst (transcriptionRef s)
      | Some t \<Rightarrow> fst (transcriptionRef s) @ (case t of None \<Rightarrow> ''undefined'' | Some txt \<Rightarrow> txt),
      case outputTranscription msg of
        None \<Rightarrow> snd (transcriptionRef s)
      | Some t \<Rightarrow> snd (transcriptionRef s) @ (case t of None \<Rightarrow> ''undefined'' | Some txt \<Rightarrow> txt))"
  by (simp add: transcription_step_def append_text_def Let_def split: option.splits)

lemma transcription_step_shown:
  "transcription (transcription_step env msg s) =
     (if inputTranscription msg \<noteq> None \<or> outputTranscription msg \<noteq> None
      then transcriptionRef (transcription_step env msg s) else transcription s)"
  by (simp add: transcription_step_def append_text_def Let_def split: option.splits)

lemma onmessage_completes:
  assumes "snd (snd (onmessage env msg s)) = None"
  shows "fst (onmessage env msg s) =
           fst (interruption env msg (transcription_step env msg
             (fst (tool_handling env msg (fst (audio_output env msg s))))))"
  using assms
  by (simp add: onmessage_def fst_andThen err_andThen split: if_splits)

lemma onmessage_raises:
  assumes "snd (snd (onmessage env msg s)) \<noteq> None"
  shows "transcriptionRef (fst (onmessage env msg s)) = transcriptionRef s"
    and "transcription (fst (onmessage env msg s)) = transcription s"
    and "pendingClears (fst (onmessage env msg s)) = pendingClears s"
  using assms
  by (auto simp add: onmessage_def fst_andThen err_andThen interruption_transcript
        audio_output_transcript tool_handling_transcript audio_output_pending
        tool_handling_pending split: if_splits)

text \<open>
  Claim C6, as the code has it. When a handler run completes, the text of each
  transcription it carries is appended to its buffer and shown; a run that raises leaves
  the buffers as they were. A run adds a pending clear exactly when it completes on a
  message with the turn-complete flag, due 6000 ms after it is handled. Nothing cancels a
  pending clear: it is still pending after any message, and once its delay has elapsed both
  buffers are empty, the text that came in meanwhile included.
\<close>

theorem pending_clear_survives_new_text:
  "transcriptionRef (fst (onmessage env msg s)) =
     (if snd (snd (onmessage env msg s)) = None
      then (case inputTranscription msg of
              None \<Rightarrow> fst (transcriptionRef s)
            | Some t \<Rightarrow>
                fst (transcriptionRef s) @ (case t of None \<Rightarrow> ''undefined'' | Some txt \<Rightarrow> txt),
            case outputTranscription msg of
              None \<Rightarrow> snd (transcriptionRef s)
            | Some t \<Rightarrow>
                snd (transcriptionRef s) @ (case t of None \<Rightarrow> ''undefined'' | Some txt \<Rightarrow> txt))
      else transcriptionRef s)
   \<and> transcription (fst (onmessage env msg s)) =
       (if snd (snd (onmessage env msg s)) = None
           \<and> (inputTranscription msg \<noteq> None \<or> outputTranscription msg \<noteq> None)
        then transcriptionRef (fst (onmessage env msg s))
        else transcription s)
   \<and> pendingClears (fst (onmessage env msg s)) =
       pendingClears s @
         (if turnComplete msg \<and> snd (snd (onmessage env msg s)) = None
          then [wallClock env + 6000] else [])
   \<and> (d \<in> set (pendingClears s) \<and> d \<le> now \<longrightarrow>
        d \<in> set (pendingClears (fst (onmessage env msg s)))
        \<and> transcriptionRef (runTimeouts now (fst (onmessage env msg s))) = ('''', '''')
        \<and> transcription (runTimeouts now (fst (onmessage env msg s))) = ('''', ''''))"
proof -
  let ?r = "onmessage env msg s"
  let ?s2 = "fst (tool_handling env msg (fst (audio_output env msg s)))"
  have before: "transcriptionRef ?s2 = transcriptionRef s" "transcription ?s2 = transcription s"
      "pendingClears ?s2 = pendingClears s"
    by (simp_all add: tool_handling_transcript audio_output_transcript tool_handling_pending
          audio_output_pending)
  have A: "transcriptionRef (fst ?r) =
     (if snd (snd ?r) = None
      then (case inputTranscription msg of
              None \<Rightarrow> fst (transcriptionRef s)
            | Some t \<Rightarrow>
                fst (transcriptionRef s) @ (case t of None \<Rightarrow> ''undefined'' | Some txt \<Rightarrow> txt),
            case outputTranscription msg of
              None \<Rightarrow> snd (transcriptionRef s)
            | Some t \<Rightarrow>
                snd (transcriptionRef s) @ (case t of None \<Rightarrow> ''undefined'' | Some txt \<Rightarrow> txt))
      else transcriptionRef s)"
  proof (cases "snd (snd ?r) = None")
    case True
    show ?thesis
      using True
      by (simp add: onmessage_completes [OF True] interruption_transcript transcription_step_ref before
            cong: option.case_cong)
  next
    case False
    show ?thesis using False onmessage_raises [OF False] by auto
  qed
  have B: "transcription (fst ?r) =
       (if snd (snd ?r) = None
           \<and> (inputTranscription msg \<noteq> None \<or> outputTranscription msg \<noteq> None)
        then transcriptionRef (fst ?r)
        else transcription s)"
  proof (cases "snd (snd ?r) = None")
    case True
    have "transcription (fst ?r) =
            (if inputTranscription msg \<noteq> None \<or> outputTranscription msg \<noteq> None
             then transcriptionRef (fst ?r) else transcription s)"
      by (simp only: onmessage_completes [OF True] interruption_transcript
            transcription_step_shown [of env msg ?s2] before)
    then show ?thesis using True by simp
  next
    case False
    show ?thesis using False onmessage_raises [OF False] by auto
  qed
  have C: "pendingClears (fst ?r) =
       pendingClears s @
         (if turnComplete msg \<and> snd (snd ?r) = None then [wallClock env + 6000] else [])"
  proof (cases "snd (snd ?r) = None")
    case True
    show ?thesis
      using True
      by (simp add: onmessage_completes [OF True] interruption_pending transcription_step_pending before)
  next
    case False
    show ?thesis using False onmessage_raises [OF False] by auto
  qed
  have D: "d \<in> set (pendingClears (fst ?r))
        \<and> transcriptionRef (runTimeouts now (fst ?r)) = ('''', '''')
        \<and> transcription (runTimeouts now (fst ?r)) = ('''', '''')"
    if h: "d \<in> set (pendingClears s)" "d \<le> now"
  proof -
    have d: "d \<in> set (pendingClears (fst ?r))"
      using h(1) onmessage_pending [of s env msg] by blast
    show ?thesis using d runTimeouts_clears [OF d h(2)] by simp
  qed
  show ?thesis using A B C D by blast
qed

lemma sample_run:
  "pendingClears afterTurnComplete = [6000]"
  "transcriptionRef afterTurnComplete = ('''', '''')"
  "pendingClears afterNewText = [6000]"
  "transcriptionRef afterNewText = (''hello'', '''')"
  by (simp_all add: afterNewText_def afterTurnComplete_def onmessage_def andThen_def audio_output_def
        tool_handling_def turnCompleteMsg_def userTextMsg_def emptyMessage_def sampleEnv_def
        transcription_step_def interruption_def append_text_def Let_def
        startedApp_def onopen_def startJarvis_def sampleAcquired_def initialApp_def)

lemma sample_no_error:
  "snd (snd (onmessage (sampleEnv 0 1000) userTextMsg afterTurnComplete)) = None"
  "snd (snd (onmessage (sampleEnv 0 2000) turnCompleteMsg afterNewText)) = None"
  by (simp_all add: onmessage_def err_andThen audio_output_def tool_handling_def
        interruption_transcript userTextMsg_def turnCompleteMsg_def emptyMessage_def)

text \<open>
  Claim C6 as stated fails: the text heard one second after the turn completed is still
  shown at 5999 ms and is wiped at 6000 ms by the clear that the earlier turn scheduled.
\<close>

theorem earlier_clear_wipes_new_text:
  "pendingClears afterTurnComplete = [6000]
   \<and> transcriptionRef afterNewText = (''hello'', '''')
   \<and> pendingClears afterNewText = [6000]
   \<and> transcriptionRef (runTimeouts 5999 afterNewText) = (''hello'', '''')
   \<and> transcriptionRef (runTimeouts 6000 afterNewText) = ('''', '''')"
  by (simp add: sample_run runTimeouts_def)

theorem pending_clear_survives_new_text_witness:
  "6000 \<in> set (pendingClears afterTurnComplete) \<and> (6000::nat) \<le> 6000
   \<and> snd (snd (onmessage (sampleEnv 0 1000) userTextMsg afterTurnComplete)) = None
   \<and> inputTranscription userTextMsg = Some (Some ''hello'')
   \<and> transcriptionRef (fst (onmessage (sampleEnv 0 1000) userTextMsg afterTurnComplete))
       = (''hello'', '''')
   \<and> transcription (fst (onmessage (sampleEnv 0 1000) userTextMsg afterTurnComplete))
       = (''hello'', '''')
   \<and> pendingClears (fst (onmessage (sampleEnv 0 1000) userTextMsg afterTurnComplete)) = [6000]
   \<and> transcriptionRef (runTimeouts 6000 (fst (onmessage (sampleEnv 0 1000) userTextMsg afterTurnComplete)))
       = ('''', '''')
   \<and> transcription (runTimeouts 6000 (fst (onmessage (sampleEnv 0 1000) userTextMsg afterTurnComplete)))
       = ('''', '''')
   \<and> turnComplete turnCompleteMsg
   \<and> pendingClears (fst (onmessage (sampleEnv 0 2000) turnCompleteMsg afterNewText)) = [6000, 8000]"
proof -
  have h: "6000 \<in> set (pendingClears afterTurnComplete)" by (simp add: sample_run)
  have l: "(6000::nat) \<le> 6000" by simp
  have m: "inputTranscription userTextMsg = Some (Some ''hello'')"
      "outputTranscription userTextMsg = None" "turnComplete userTextMsg = False"
    by (simp_all add: userTextMsg_def emptyMessage_def)
  have m': "turnComplete turnCompleteMsg" "wallClock (sampleEnv 0 2000) = 2000"
    by (simp_all add: turnCompleteMsg_def sampleEnv_def)
  note T = pending_clear_survives_new_text [where env = "sampleEnv 0 1000" and msg = userTextMsg
             and s = afterTurnComplete and d = 6000 and now = 6000]
  note T' = pending_clear_survives_new_text [where env = "sampleEnv 0 2000" and msg = turnCompleteMsg
             and s = afterNewText and d = 6000 and now = 6000]
  have a: "transcriptionRef (fst (onmessage (sampleEnv 0 1000) userTextMsg afterTurnComplete))
       = (''hello'', '''')"
    using T by (simp add: sample_no_error m sample_run)
  have b: "transcription (fst (onmessage (sampleEnv 0 1000) userTextMsg afterTurnComplete))
       = (''hello'', '''')"
    using T a by (simp add: sample_no_error m)
  have c: "pendingClears (fst (onmessage (sampleEnv 0 1000) userTextMsg afterTurnComplete)) = [6000]"
    using T by (simp add: sample_no_error m sample_run)
  have d: "transcriptionRef (runTimeouts 6000 (fst (onmessage (sampleEnv 0 1000) userTextMsg afterTurnComplete)))
       = ('''', '''')
     \<and> transcription (runTimeouts 6000 (fst (onmessage (sampleEnv 0 1000) userTextMsg afterTurnComplete)))
       = ('''', '''')"
    using T h l by blast
  have e: "pendingClears (fst (onmessage (sampleEnv 0 2000) turnCompleteMsg afterNewText)) = [6000, 8000]"
    using T' by (simp add: sample_no_error m' sample_run)
  show ?thesis using h l sample_no_error(1) m(1) m'(1) a b c d e by blast
qed

text \<open>
  Claim C10, as the code has it. When no preview is held at the mouse-down, a mouse-up
  that follows it directly commits nothing: the state of \<open>App\<close>, with its drawing list and
  history, is unchanged, and only the drawing flag and the start point are reset.
\<close>

theorem click_without_preview_commits_nothing:
  assumes "previewDrawing h = None"
  shows "handleMouseUp now (handleMouseDown active e h, s)
           = Inr ((handleMouseDown active e h)\<lparr> isDrawing := False, startPoint := None \<rparr>, s)"
  using assms by (simp add: handleMouseUp_def handleMouseDown_def Let_def)

theorem click_without_preview_commits_nothing_witness:
  "previewDrawing initialHUD = None
   \<and> handleMouseUp 1700000000000 (handleMouseDown True (mouseAt 700 700) initialHUD, startedApp)
       = Inr ((handleMouseDown True (mouseAt 700 700) initialHUD)\<lparr> isDrawing := False, startPoint := None \<rparr>,
              startedApp)"
proof -
  have h: "previewDrawing initialHUD = None" by (simp add: initialHUD_def)
  show ?thesis
    using h click_without_preview_commits_nothing [OF h, of 1700000000000 True "mouseAt 700 700" startedApp]
    by simp
qed

lemma startedApp_drawings: "drawings startedApp = Some []" "historyRef startedApp = []"
  "historyIndexRef startedApp = - 1"
  by (simp_all add: startedApp_def onopen_def startJarvis_def sampleAcquired_def initialApp_def Let_def)

text \<open>
  Claim C10 as stated fails: \<open>handleMouseDown\<close> keeps a preview left by a drag whose release
  was never delivered, so the next click, with no move between press and release, commits
  that rectangle and pushes a snapshot.
\<close>

theorem bare_click_commits_stale_preview:
  "drawings startedApp = Some []
   \<and> historyRef startedApp = []
   \<and> map_sum id (drawings \<circ> snd)
        (handleMouseUp 1700000000000 (handleMouseDown True (mouseAt 700 700) unfinishedDrag, startedApp))
       = Inr (Some [[(''id'', JStr ''user-1700000000000''), (''type'', JStr ''rect''),
                     (''x'', JNum 300), (''y'', JNum 250), (''width'', JNum 200),
                     (''height'', JNum 100), (''color'', JStr ''#22d3ee'')]])
   \<and> map_sum id (length \<circ> historyRef \<circ> snd)
        (handleMouseUp 1700000000000 (handleMouseDown True (mouseAt 700 700) unfinishedDrag, startedApp))
       = Inr 1"
  by (simp add: startedApp_drawings handleMouseUp_def handleMouseDown_def handleMouseMove_def
        unfinishedDrag_def initialHUD_def mouseAt_def getNormalizedPos_def preview_for_def
        spread_def updateDrawings_def slice0_def Let_def show_nat_small)

end
